theory Spec2Isabelle
  imports Main
begin

text \<open>
  A model of the contacts backend: the user store and the auth routes, the contact store
  with its upcoming-birthday filter and the contact routes. The database is an explicit
  state that every operation takes and returns; exceptions are values of a sum type.
\<close>

section \<open>Errors and query results\<close>

text \<open>
  Every way a request handler of the application can leave by an exception is a value of
  \<open>error\<close>: the \<open>HTTPException\<close> raised by the routes (status code and detail), SQLAlchemy's
  \<open>MultipleResultsFound\<close> raised by \<open>scalar_one_or_none\<close>, Python's \<open>AttributeError\<close>
  raised by an attribute access on \<open>None\<close>, and FastAPI's \<open>ResponseValidationError\<close> raised
  when a handler's value does not fit the \<open>response_model\<close> declared on its route.
\<close>

datatype error =
    HTTPException nat string
  | MultipleResultsFound
  | AttributeError
  | ResponseValidationError

text \<open>\<open>Result.scalar_one_or_none()\<close>: no row gives \<open>None\<close>, one row gives the row, more rows raise.\<close>

fun scalar_one_or_none :: "'a list \<Rightarrow> error + 'a option" where
  "scalar_one_or_none [] = Inr None"
| "scalar_one_or_none [x] = Inr (Some x)"
| "scalar_one_or_none (x # y # zs) = Inl MultipleResultsFound"

section \<open>Data model\<close>

text \<open>
  Modelled from the spec: the declarations of \<open>User\<close> and \<open>Contact\<close> (src/entity/models.py)
  are not among the sources. The columns are the ones of the spec's data model, under the
  names the repository functions and the tests use as keyword arguments and filters, each
  prefixed here because \<open>id\<close> and \<open>email\<close> occur in both tables.
\<close>

record user =
  u_id :: nat
  u_username :: string
  u_email :: string
  u_hash :: string
  u_avatar :: "string option"
  u_confirmed :: bool
  u_refresh_token :: "string option"

datatype date = Date (year: int) (month: int) (day: int)

record contact =
  c_id :: nat
  c_name :: string
  c_last_name :: string
  c_email :: string
  c_phone_number :: int
  c_birth_date :: date
  c_rest :: string
  c_user_id :: nat

text \<open>
  The object \<open>update_contact\<close> returns: the mapped columns together with the plain instance
  attributes \<open>lastName\<close>, \<open>phoneNumber\<close> and \<open>birthDate\<close> that the function assigns. They are
  not columns of \<open>Contact\<close>, so a commit does not write them.
\<close>

record contact_obj =
  row :: contact
  lastName :: "string option"
  phoneNumber :: "int option"
  birthDate :: "date option"

text \<open>
  Modelled from the spec: the request bodies \<open>UserValidationSchema\<close> and
  \<open>ContactValidationSchema\<close> (src/schemas) are not among the sources; their fields are the
  ones the tests construct them with. \<open>update_contact\<close> takes the response schema, which has
  an \<open>id\<close> in addition that the function does not read.
\<close>

record user_schema =
  s_username :: string
  s_email :: string
  s_hash :: string

record contact_schema =
  b_name :: string
  b_last_name :: string
  b_email :: string
  b_phone_number :: int
  b_birth_date :: date
  b_rest :: string

text \<open>
  The database: the rows of the two tables in table order, and for each table the next value
  of the sequence that generates its primary key.
\<close>

record db =
  users :: "user list"
  users_seq :: nat
  contacts :: "contact list"
  contacts_seq :: nat

text \<open>
  Modelled from the spec: the constraints of the two tables, declared with the models that
  are not among the sources. Ids are primary keys, so they are unique, and they were drawn
  from the table's sequence; \<open>User.email\<close> is unique.
\<close>

definition users_wf :: "db \<Rightarrow> bool" where
  "users_wf d \<longleftrightarrow>
     distinct (map u_email (users d)) \<and> distinct (map u_id (users d)) \<and>
     list_all (\<lambda>u. u_id u < users_seq d) (users d)"

definition contacts_wf :: "db \<Rightarrow> bool" where
  "contacts_wf d \<longleftrightarrow>
     distinct (map c_id (contacts d)) \<and> list_all (\<lambda>c. c_id c < contacts_seq d) (contacts d)"

section \<open>External collaborators\<close>

text \<open>
  \<open>auth_service\<close> (password hashing and the token service) is not part of the repository
  functions modelled here; its operations are parameters. Token creation and decoding take
  the current time, since tokens carry an expiry.
\<close>

record auth_service =
  get_password_hash :: "string \<Rightarrow> string"
  verify_password :: "string \<Rightarrow> string \<Rightarrow> bool"
  create_access_token :: "nat \<Rightarrow> string \<Rightarrow> string"
  create_refresh_token :: "nat \<Rightarrow> string \<Rightarrow> string"
  decode_refresh_token :: "nat \<Rightarrow> string \<Rightarrow> error + string"
  get_email_from_token :: "nat \<Rightarrow> string \<Rightarrow> error + string"

section \<open>User store (src/repository/users.py)\<close>

definition get_user_by_email :: "string \<Rightarrow> db \<Rightarrow> error + user option" where
  "get_user_by_email email d = scalar_one_or_none (filter (\<lambda>u. u_email u = email) (users d))"

text \<open>
  A commit of a loaded and modified object writes the object's columns to the row with the
  object's primary key.
\<close>

definition commit_user :: "user \<Rightarrow> db \<Rightarrow> db" where
  "commit_user u d = d\<lparr>users := map (\<lambda>r. if u_id r = u_id u then u else r) (users d)\<rparr>"

text \<open>
  \<open>create_user\<close>: the avatar is the Gravatar image of the email, or \<open>None\<close> when the lookup
  raises; the parameter \<open>gravatar\<close> is that lookup. The generated id and the column defaults
  (\<open>confirmed = False\<close>, \<open>refresh_token = None\<close>) are the database's, taken from the spec's
  data model. The function itself does not look for an existing user.
\<close>

definition create_user :: "(string \<Rightarrow> string option) \<Rightarrow> user_schema \<Rightarrow> db \<Rightarrow> user \<times> db" where
  "create_user gravatar body d =
     (let avatar = gravatar (s_email body);
          new_user = \<lparr>u_id = users_seq d, u_username = s_username body, u_email = s_email body,
                      u_hash = s_hash body, u_avatar = avatar, u_confirmed = False,
                      u_refresh_token = None\<rparr>
      in (new_user, d\<lparr>users := users d @ [new_user], users_seq := Suc (users_seq d)\<rparr>))"

definition update_token :: "user \<Rightarrow> string option \<Rightarrow> db \<Rightarrow> db" where
  "update_token u token d = commit_user (u\<lparr>u_refresh_token := token\<rparr>) d"

definition update_avatar_url :: "string \<Rightarrow> string option \<Rightarrow> db \<Rightarrow> (error + user) \<times> db" where
  "update_avatar_url email url d =
     (case get_user_by_email email d of
        Inl e \<Rightarrow> (Inl e, d)
      | Inr None \<Rightarrow> (Inl AttributeError, d)
      | Inr (Some u) \<Rightarrow> (let u' = u\<lparr>u_avatar := url\<rparr> in (Inr u', commit_user u' d)))"

definition repository_confirmed_email :: "string \<Rightarrow> db \<Rightarrow> (error + unit) \<times> db" where
  "repository_confirmed_email email d =
     (case get_user_by_email email d of
        Inl e \<Rightarrow> (Inl e, d)
      | Inr None \<Rightarrow> (Inl AttributeError, d)
      | Inr (Some u) \<Rightarrow> (Inr (), commit_user (u\<lparr>u_confirmed := True\<rparr>) d))"

section \<open>Auth routes (src/routes/auth.py)\<close>

record token_schema =
  access_token :: string
  refresh_token :: string
  token_type :: string

datatype task = Send_email string string string

text \<open>
  \<open>signup\<close>: the result is the new user and the background task queued for the
  confirmation mail.
\<close>

definition signup ::
  "auth_service \<Rightarrow> (string \<Rightarrow> string option) \<Rightarrow> string \<Rightarrow> user_schema \<Rightarrow> db
     \<Rightarrow> (error + user \<times> task) \<times> db" where
  "signup svc gravatar base_url body d =
     (case get_user_by_email (s_email body) d of
        Inl e \<Rightarrow> (Inl e, d)
      | Inr (Some exist_user) \<Rightarrow> (Inl (HTTPException 409 ''Account already exists''), d)
      | Inr None \<Rightarrow>
          (let body' = body\<lparr>s_hash := get_password_hash svc (s_hash body)\<rparr>;
               (new_user, d') = create_user gravatar body' d
           in (Inr (new_user, Send_email (u_email new_user) (u_username new_user) base_url), d')))"

definition login ::
  "auth_service \<Rightarrow> nat \<Rightarrow> string \<Rightarrow> string \<Rightarrow> db \<Rightarrow> (error + token_schema) \<times> db" where
  "login svc now username password d =
     (case get_user_by_email username d of
        Inl e \<Rightarrow> (Inl e, d)
      | Inr None \<Rightarrow> (Inl (HTTPException 401 ''Invalid email''), d)
      | Inr (Some u) \<Rightarrow>
          if \<not> u_confirmed u then (Inl (HTTPException 401 ''Email not confirmed''), d)
          else if \<not> verify_password svc password (u_hash u)
          then (Inl (HTTPException 401 ''Invalid password''), d)
          else
            (let access = create_access_token svc now (u_email u);
                 refresh = create_refresh_token svc now (u_email u)
             in (Inr \<lparr>access_token = access, refresh_token = refresh, token_type = ''bearer''\<rparr>,
                 update_token u (Some refresh) d)))"

text \<open>
  \<open>refresh_token\<close>: the user loaded by the decoded email is used without a test for \<open>None\<close>;
  reading \<open>user.refresh_token\<close> on \<open>None\<close> raises \<open>AttributeError\<close>.
\<close>

definition route_refresh_token ::
  "auth_service \<Rightarrow> nat \<Rightarrow> string \<Rightarrow> db \<Rightarrow> (error + token_schema) \<times> db" where
  "route_refresh_token svc now token d =
     (case decode_refresh_token svc now token of
        Inl e \<Rightarrow> (Inl e, d)
      | Inr email \<Rightarrow>
          (case get_user_by_email email d of
             Inl e \<Rightarrow> (Inl e, d)
           | Inr None \<Rightarrow> (Inl AttributeError, d)
           | Inr (Some u) \<Rightarrow>
               if u_refresh_token u \<noteq> Some token
               then (Inl (HTTPException 401 ''Invalid refresh token''), update_token u None d)
               else
                 (let access = create_access_token svc now email;
                      refresh = create_refresh_token svc now email
                  in (Inr \<lparr>access_token = access, refresh_token = refresh,
                           token_type = ''bearer''\<rparr>,
                      update_token u (Some refresh) d))))"

definition route_confirmed_email ::
  "auth_service \<Rightarrow> nat \<Rightarrow> string \<Rightarrow> db \<Rightarrow> (error + string) \<times> db" where
  "route_confirmed_email svc now token d =
     (case get_email_from_token svc now token of
        Inl e \<Rightarrow> (Inl e, d)
      | Inr email \<Rightarrow>
          (case get_user_by_email email d of
             Inl e \<Rightarrow> (Inl e, d)
           | Inr None \<Rightarrow> (Inl (HTTPException 400 ''Verification error''), d)
           | Inr (Some u) \<Rightarrow>
               if u_confirmed u then (Inr ''Your email is already confirmed'', d)
               else
                 (case repository_confirmed_email email d of
                    (Inl e, d') \<Rightarrow> (Inl e, d')
                  | (Inr _, d') \<Rightarrow> (Inr ''Email confirmed'', d'))))"

section \<open>Calendar dates and PostgreSQL's \<open>age\<close>\<close>

text \<open>
  The birthday filter is evaluated by the database, whose functions are not code of the
  repository; they are modelled by PostgreSQL's documented behaviour. The query subtracts an interval of days
  from the \<open>birth_date\<close> column, applies \<open>age\<close> (the symbolic difference between
  \<open>current_date\<close> at midnight and its argument, in years, months and days) and takes
  \<open>date_part('year', ...)\<close> of the interval. Both operands of \<open>age\<close> are midnights, so a date
  stands for its midnight and the time fields of the difference are zero.
\<close>

definition isleap :: "int \<Rightarrow> bool" where
  "isleap y \<longleftrightarrow> y mod 4 = 0 \<and> (y mod 100 \<noteq> 0 \<or> y mod 400 = 0)"

definition day_tab :: "bool \<Rightarrow> int \<Rightarrow> int" where
  "day_tab leap m =
     (if m = 2 then (if leap then 29 else 28)
      else if m = 4 \<or> m = 6 \<or> m = 9 \<or> m = 11 then 30 else 31)"

fun prev_day :: "date \<Rightarrow> date" where
  "prev_day (Date y m d) =
     (if 1 < d then Date y m (d - 1)
      else if 1 < m then Date y (m - 1) (day_tab (isleap y) (m - 1))
      else Date (y - 1) 12 31)"

fun next_day :: "date \<Rightarrow> date" where
  "next_day (Date y m d) =
     (if d < day_tab (isleap y) m then Date y m (d + 1)
      else if m < 12 then Date y (m + 1) 1
      else Date (y + 1) 1 1)"

fun minus_days :: "date \<Rightarrow> nat \<Rightarrow> date" where
  "minus_days dt 0 = dt"
| "minus_days dt (Suc n) = minus_days (prev_day dt) n"

fun plus_days :: "date \<Rightarrow> nat \<Rightarrow> date" where
  "plus_days dt 0 = dt"
| "plus_days dt (Suc n) = plus_days (next_day dt) n"

text \<open>\<open>sa_col - cast(timedelta(n), Interval)\<close>; a negative \<open>timedelta\<close> moves forward.\<close>

definition date_minus_interval :: "date \<Rightarrow> int \<Rightarrow> date" where
  "date_minus_interval dt n = (if 0 \<le> n then minus_days dt (nat n) else plus_days dt (nat (- n)))"

fun date_less :: "date \<Rightarrow> date \<Rightarrow> bool" where
  "date_less (Date y1 m1 d1) (Date y2 m2 d2) \<longleftrightarrow>
     y1 < y2 \<or> (y1 = y2 \<and> (m1 < m2 \<or> (m1 = m2 \<and> d1 < d2)))"

text \<open>An interval as PostgreSQL stores it: months (years are twelve months) and days.\<close>

datatype interval = Interval (months: int) (days: int)

text \<open>
  \<open>age today ts\<close>: the field-wise difference \<open>today - ts\<close>, negated when \<open>today\<close> is before
  \<open>ts\<close>; a negative day field borrows the length of a month (the month of the earlier
  operand) from the month field, a negative month field borrows twelve months from the
  year field; the sign is then restored.
\<close>

definition age :: "date \<Rightarrow> date \<Rightarrow> interval" where
  "age today ts =
     (let flip = date_less today ts;
          sgn = (if flip then - 1 else 1);
          y0 = sgn * (year today - year ts);
          m0 = sgn * (month today - month ts);
          d0 = sgn * (day today - day ts);
          len = (if flip then day_tab (isleap (year today)) (month today)
                 else day_tab (isleap (year ts)) (month ts));
          m1 = (if d0 < 0 then m0 - 1 else m0);
          d1 = (if d0 < 0 then d0 + len else d0);
          y2 = (if m1 < 0 then y0 - 1 else y0);
          m2 = (if m1 < 0 then m1 + 12 else m1)
      in Interval (sgn * (y2 * 12 + m2)) (sgn * d1))"

text \<open>\<open>date_part('year', interval)\<close>: the months divided by twelve, truncated towards zero.\<close>

definition date_part_year :: "interval \<Rightarrow> int" where
  "date_part_year iv = (if 0 \<le> months iv then months iv div 12 else - ((- months iv) div 12))"

section \<open>Contact store (src/repository/contacts.py)\<close>

text \<open>
  \<open>today\<close> is the database's \<open>current_date\<close> when the query runs. The query has no
  \<open>ORDER BY\<close>; rows come in table order, and the offset and the limit apply to the filtered
  rows.
\<close>

definition age_years_at :: "date \<Rightarrow> date \<Rightarrow> int \<Rightarrow> int" where
  "age_years_at today sa_col next_days =
     date_part_year
       (age today (if next_days \<noteq> 0 then date_minus_interval sa_col next_days else sa_col))"

definition has_birthday_next_days :: "date \<Rightarrow> date \<Rightarrow> int \<Rightarrow> bool" where
  "has_birthday_next_days today sa_col next_days \<longleftrightarrow>
     age_years_at today sa_col next_days > age_years_at today sa_col 0"

text \<open>Python's truth value of an optional query parameter: \<open>None\<close> and the empty string are false.\<close>

fun truthy :: "string option \<Rightarrow> bool" where
  "truthy None = False"
| "truthy (Some s) = (s \<noteq> [])"

definition read_all_contacts ::
  "date \<Rightarrow> nat \<Rightarrow> nat \<Rightarrow> string option \<Rightarrow> string option \<Rightarrow> string option \<Rightarrow> bool \<Rightarrow> db \<Rightarrow> nat
     \<Rightarrow> contact list" where
  "read_all_contacts today limit offset name last_name email find_BD d user_id =
     (let stmt = filter (\<lambda>c. c_user_id c = user_id) (contacts d);
          stmt = (if truthy name then filter (\<lambda>c. Some (c_name c) = name) stmt else stmt);
          stmt = (if truthy last_name then filter (\<lambda>c. Some (c_last_name c) = last_name) stmt
                  else stmt);
          stmt = (if truthy email then filter (\<lambda>c. Some (c_email c) = email) stmt else stmt);
          stmt = (if find_BD then filter (\<lambda>c. has_birthday_next_days today (c_birth_date c) 7) stmt
                  else stmt)
      in take limit (drop offset stmt))"

definition read_contact :: "nat \<Rightarrow> db \<Rightarrow> nat \<Rightarrow> error + contact option" where
  "read_contact contact_id d user_id =
     scalar_one_or_none
       (filter (\<lambda>c. c_id c = contact_id \<and> c_user_id c = user_id) (contacts d))"

text \<open>
  \<open>add_contact\<close>: every field of the body is set, so \<open>model_dump(exclude_unset=True)\<close> gives
  all six; the id is generated by the database (the next value of the sequence).
\<close>

definition add_contact :: "contact_schema \<Rightarrow> db \<Rightarrow> nat \<Rightarrow> contact \<times> db" where
  "add_contact body d user_id =
     (let c = \<lparr>c_id = contacts_seq d, c_name = b_name body, c_last_name = b_last_name body,
               c_email = b_email body, c_phone_number = b_phone_number body,
               c_birth_date = b_birth_date body, c_rest = b_rest body, c_user_id = user_id\<rparr>
      in (c, d\<lparr>contacts := contacts d @ [c], contacts_seq := Suc (contacts_seq d)\<rparr>))"

definition commit_contact :: "contact \<Rightarrow> db \<Rightarrow> db" where
  "commit_contact c d = d\<lparr>contacts := map (\<lambda>r. if c_id r = c_id c then c else r) (contacts d)\<rparr>"

text \<open>
  \<open>update_contact\<close> assigns \<open>name\<close>, \<open>email\<close> and \<open>rest\<close>, which are columns, and \<open>lastName\<close>,
  \<open>phoneNumber\<close> and \<open>birthDate\<close>, which are not (the columns are \<open>last_name\<close>,
  \<open>phone_number\<close> and \<open>birth_date\<close>). The commit writes the columns; the refresh reloads
  them and leaves the other attributes on the object.
\<close>

definition update_contact ::
  "contact_schema \<Rightarrow> nat \<Rightarrow> db \<Rightarrow> nat \<Rightarrow> (error + contact_obj option) \<times> db" where
  "update_contact body contact_id d user_id =
     (case read_contact contact_id d user_id of
        Inl e \<Rightarrow> (Inl e, d)
      | Inr None \<Rightarrow> (Inr None, d)
      | Inr (Some c) \<Rightarrow>
          (let c' = c\<lparr>c_name := b_name body, c_email := b_email body, c_rest := b_rest body\<rparr>
           in (Inr (Some \<lparr>row = c', lastName = Some (b_last_name body),
                          phoneNumber = Some (b_phone_number body),
                          birthDate = Some (b_birth_date body)\<rparr>),
               commit_contact c' d)))"

definition delete_contact :: "nat \<Rightarrow> db \<Rightarrow> nat \<Rightarrow> (error + contact option) \<times> db" where
  "delete_contact contact_id d user_id =
     (case read_contact contact_id d user_id of
        Inl e \<Rightarrow> (Inl e, d)
      | Inr None \<Rightarrow> (Inr None, d)
      | Inr (Some c) \<Rightarrow>
          (Inr (Some c), d\<lparr>contacts := filter (\<lambda>r. c_id r \<noteq> c_id c) (contacts d)\<rparr>))"

section \<open>Contact routes (src/routes/contacts.py)\<close>

text \<open>
  A handler's outcome: the status code declared on the route (200 when none is declared)
  and the value the handler returns. Where the route declares a \<open>response_model\<close>, the value
  is validated against it first: a contact fits \<open>ContactValidationSchemaResponse\<close> (the
  schema is not among the sources; its fields are the contact's columns) and a list of
  contacts fits the list model, while \<open>None\<close> does not fit and the request ends in a
  \<open>ResponseValidationError\<close>. The GET routes and the POST route declare a model, the PUT
  and the DELETE route do not.
\<close>

datatype 'a response = Response (status_code: nat) (content: 'a)

definition route_read_all_contacts ::
  "date \<Rightarrow> nat \<Rightarrow> nat \<Rightarrow> string option \<Rightarrow> string option \<Rightarrow> string option \<Rightarrow> bool \<Rightarrow> db \<Rightarrow> user
     \<Rightarrow> contact list response" where
  "route_read_all_contacts today limit offset name last_name email find_BD d current_user =
     Response 200
       (read_all_contacts today limit offset name last_name email find_BD d (u_id current_user))"

definition route_read_contact :: "nat \<Rightarrow> db \<Rightarrow> user \<Rightarrow> error + contact response" where
  "route_read_contact contact_id d current_user =
     (case read_contact contact_id d (u_id current_user) of
        Inl e \<Rightarrow> Inl e
      | Inr None \<Rightarrow> Inl ResponseValidationError
      | Inr (Some contact) \<Rightarrow> Inr (Response 200 contact))"

definition route_add_contact :: "contact_schema \<Rightarrow> db \<Rightarrow> user \<Rightarrow> contact response \<times> db" where
  "route_add_contact body d current_user =
     (case add_contact body d (u_id current_user) of (contact, d') \<Rightarrow> (Response 201 contact, d'))"

definition route_update_contact ::
  "contact_schema \<Rightarrow> nat \<Rightarrow> db \<Rightarrow> user \<Rightarrow> (error + contact_obj option response) \<times> db" where
  "route_update_contact body contact_id d current_user =
     (case update_contact body contact_id d (u_id current_user) of
        (Inl e, d') \<Rightarrow> (Inl e, d')
      | (Inr contact, d') \<Rightarrow> (Inr (Response 200 contact), d'))"

text \<open>\<open>delete_contact\<close> awaits the store and returns nothing: the store's result is dropped.\<close>

definition route_delete_contact :: "nat \<Rightarrow> db \<Rightarrow> user \<Rightarrow> (error + unit response) \<times> db" where
  "route_delete_contact contact_id d current_user =
     (case delete_contact contact_id d (u_id current_user) of
        (Inl e, d') \<Rightarrow> (Inl e, d')
      | (Inr contact, d') \<Rightarrow> (Inr (Response 204 ()), d'))"

section \<open>Notions used to state the properties\<close>

text \<open>The ids of the users whose \<open>confirmed\<close> flag is set.\<close>

definition confirmed_ids :: "db \<Rightarrow> nat set" where
  "confirmed_ids d = set (map u_id (filter u_confirmed (users d)))"

text \<open>
  The calendar reading of "the birthday falls within the next \<open>n\<close> days": one of the days
  \<open>today\<close>, \<open>today + 1\<close>, ..., \<open>today + n\<close> has the month and the day of the birth date.
\<close>

fun same_month_day :: "date \<Rightarrow> date \<Rightarrow> bool" where
  "same_month_day (Date y1 m1 d1) (Date y2 m2 d2) \<longleftrightarrow> m1 = m2 \<and> d1 = d2"

fun birthday_within :: "date \<Rightarrow> date \<Rightarrow> nat \<Rightarrow> bool" where
  "birthday_within today birth 0 = same_month_day today birth"
| "birthday_within today birth (Suc n) =
     (same_month_day today birth \<or> birthday_within (next_day today) birth n)"

section \<open>Example data\<close>

text \<open>
  A toy instance of the external services and a few small databases, on which the theorems
  below are instantiated.
\<close>

definition svc0 :: auth_service where
  "svc0 = \<lparr>get_password_hash = (\<lambda>p. ''#'' @ p),
           verify_password = (\<lambda>p h. h = ''#'' @ p),
           create_access_token = (\<lambda>t sub. ''a:'' @ sub),
           create_refresh_token = (\<lambda>t sub. ''r:'' @ sub),
           decode_refresh_token =
             (\<lambda>t tok. if take 2 tok = ''r:'' then Inr (drop 2 tok)
                      else Inl (HTTPException 401 ''Could not validate credentials'')),
           get_email_from_token = (\<lambda>t tok. Inr tok)\<rparr>"

definition no_gravatar :: "string \<Rightarrow> string option" where
  "no_gravatar email = None"

definition alice :: user where
  "alice = \<lparr>u_id = 1, u_username = ''alice'', u_email = ''a@x.com'', u_hash = ''#pw'',
            u_avatar = None, u_confirmed = True, u_refresh_token = Some ''r:new''\<rparr>"

definition bob :: user where
  "bob = \<lparr>u_id = 2, u_username = ''bob'', u_email = ''b@x.com'', u_hash = ''#pw2'',
          u_avatar = None, u_confirmed = False, u_refresh_token = None\<rparr>"

definition db0 :: db where
  "db0 = \<lparr>users = [], users_seq = 1, contacts = [], contacts_seq = 1\<rparr>"

definition db1 :: db where
  "db1 = \<lparr>users = [alice], users_seq = 2, contacts = [], contacts_seq = 1\<rparr>"

definition db2 :: db where
  "db2 = \<lparr>users = [alice, bob], users_seq = 3, contacts = [], contacts_seq = 1\<rparr>"

definition carol_contact :: contact where
  "carol_contact = \<lparr>c_id = 1, c_name = ''Carol'', c_last_name = ''Old'', c_email = ''c@x.com'',
                    c_phone_number = 111, c_birth_date = Date 2001 3 3, c_rest = ''note'',
                    c_user_id = 1\<rparr>"

definition new_body :: contact_schema where
  "new_body = \<lparr>b_name = ''Caroline'', b_last_name = ''New'', b_email = ''c2@x.com'',
               b_phone_number = 222, b_birth_date = Date 1999 9 9, b_rest = ''changed''\<rparr>"

definition db3 :: db where
  "db3 = \<lparr>users = [alice, bob], users_seq = 3, contacts = [carol_contact], contacts_seq = 2\<rparr>"

section \<open>Basic facts about the stores\<close>

lemma scalar_one_or_none_Some: "scalar_one_or_none xs = Inr (Some x) \<longleftrightarrow> xs = [x]"
  by (cases xs rule: scalar_one_or_none.cases) auto

lemma scalar_one_or_none_None: "scalar_one_or_none xs = Inr None \<longleftrightarrow> xs = []"
  by (cases xs rule: scalar_one_or_none.cases) auto

lemma scalar_one_or_none_Inl: "scalar_one_or_none xs = Inl e \<Longrightarrow> e = MultipleResultsFound"
  by (cases xs rule: scalar_one_or_none.cases) auto

lemma distinct_map_eqD:
  "distinct (map f xs) \<Longrightarrow> x \<in> set xs \<Longrightarrow> y \<in> set xs \<Longrightarrow> f x = f y \<Longrightarrow> x = y"
  by (meson distinct_map inj_onD)

lemma filter_map_commute:
  "(\<And>r. r \<in> set xs \<Longrightarrow> P (f r) = P r) \<Longrightarrow> filter P (map f xs) = map f (filter P xs)"
  by (induction xs) auto

lemma get_user_by_email_SomeD:
  assumes "get_user_by_email email d = Inr (Some u)"
  shows "u \<in> set (users d)" and "u_email u = email"
proof -
  from assms have "filter (\<lambda>r. u_email r = email) (users d) = [u]"
    by (simp add: get_user_by_email_def scalar_one_or_none_Some)
  then have "u \<in> set (filter (\<lambda>r. u_email r = email) (users d))"
    by simp
  then show "u \<in> set (users d)" and "u_email u = email"
    by simp_all
qed

lemma users_commit_user [simp]:
  "users (commit_user u d) = map (\<lambda>r. if u_id r = u_id u then u else r) (users d)"
  by (simp add: commit_user_def)

lemma users_seq_commit_user [simp]: "users_seq (commit_user u d) = users_seq d"
  by (simp add: commit_user_def)

lemma contacts_commit_user [simp]: "contacts (commit_user u d) = contacts d"
  by (simp add: commit_user_def)

lemma commit_user_idem: "commit_user u (commit_user u d) = commit_user u d"
  by (simp add: commit_user_def comp_def cong: if_cong)

text \<open>
  Writing back a loaded user whose id and email are not changed leaves it the one user
  found under its email.
\<close>

lemma get_user_by_email_commit_user:
  assumes ids: "distinct (map u_id (users d))"
      and u: "get_user_by_email email d = Inr (Some u)"
      and id: "u_id u' = u_id u" and em: "u_email u' = u_email u"
  shows "get_user_by_email email (commit_user u' d) = Inr (Some u')"
proof -
  let ?f = "\<lambda>r. if u_id r = u_id u' then u' else r"
  let ?P = "\<lambda>r. u_email r = email"
  from u have eq: "filter ?P (users d) = [u]"
    by (simp add: get_user_by_email_def scalar_one_or_none_Some)
  have mem: "u \<in> set (users d)" and ue: "u_email u = email"
    using get_user_by_email_SomeD [OF u] by simp_all
  have same: "?P (?f r) = ?P r" if "r \<in> set (users d)" for r
  proof (cases "u_id r = u_id u'")
    case True
    with id have "r = u"
      using distinct_map_eqD [OF ids that mem] by simp
    with True em ue show ?thesis by simp
  next
    case False
    then show ?thesis by simp
  qed
  have "filter ?P (map ?f (users d)) = map ?f (filter ?P (users d))"
    using same by (rule filter_map_commute)
  with eq id show ?thesis
    by (simp add: get_user_by_email_def)
qed

section \<open>Refresh tokens\<close>

text \<open>
  C2. Let the presented refresh token decode to an email under which a user is stored, and
  let it differ from that user's stored refresh token. Then the refresh fails with the 401
  error "Invalid refresh token", the stored refresh token is null afterwards, and presenting
  the same token again (still decoding to the same email) fails in the same way and leaves
  the database as it is.
\<close>

theorem refresh_token_mismatch_revokes:
  assumes dec: "decode_refresh_token svc now token = Inr email"
      and dec': "decode_refresh_token svc now' token = Inr email"
      and wf: "users_wf d"
      and u: "get_user_by_email email d = Inr (Some u)"
      and ne: "u_refresh_token u \<noteq> Some token"
  shows "route_refresh_token svc now token d =
           (Inl (HTTPException 401 ''Invalid refresh token''), update_token u None d)
       \<and> get_user_by_email email (update_token u None d) =
           Inr (Some (u\<lparr>u_refresh_token := None\<rparr>))
       \<and> route_refresh_token svc now' token (update_token u None d) =
           (Inl (HTTPException 401 ''Invalid refresh token''), update_token u None d)"
proof -
  let ?u' = "u\<lparr>u_refresh_token := None\<rparr>"
  let ?d' = "update_token u None d"
  from wf have ids: "distinct (map u_id (users d))"
    by (simp add: users_wf_def)
  have first: "route_refresh_token svc now token d =
      (Inl (HTTPException 401 ''Invalid refresh token''), ?d')"
    using dec u ne by (simp add: route_refresh_token_def)
  have stored: "get_user_by_email email ?d' = Inr (Some ?u')"
    unfolding update_token_def
    by (rule get_user_by_email_commit_user [OF ids u]) simp_all
  have again: "update_token ?u' None ?d' = ?d'"
    by (simp add: update_token_def commit_user_idem)
  have second: "route_refresh_token svc now' token ?d' =
      (Inl (HTTPException 401 ''Invalid refresh token''), ?d')"
    using dec' stored again by (simp add: route_refresh_token_def)
  from first stored second show ?thesis
    by simp
qed

theorem refresh_token_mismatch_revokes_witness:
  "route_refresh_token svc0 5 ''r:a@x.com'' db1 =
     (Inl (HTTPException 401 ''Invalid refresh token''),
      db1\<lparr>users := [alice\<lparr>u_refresh_token := None\<rparr>]\<rparr>)
   \<and> route_refresh_token svc0 6 ''r:a@x.com''
       (db1\<lparr>users := [alice\<lparr>u_refresh_token := None\<rparr>]\<rparr>) =
     (Inl (HTTPException 401 ''Invalid refresh token''),
      db1\<lparr>users := [alice\<lparr>u_refresh_token := None\<rparr>]\<rparr>)"
proof -
  have dec: "decode_refresh_token svc0 5 ''r:a@x.com'' = Inr ''a@x.com''"
    by (simp add: svc0_def)
  have dec': "decode_refresh_token svc0 6 ''r:a@x.com'' = Inr ''a@x.com''"
    by (simp add: svc0_def)
  have wf: "users_wf db1"
    by (simp add: users_wf_def db1_def alice_def)
  have u: "get_user_by_email ''a@x.com'' db1 = Inr (Some alice)"
    by (simp add: get_user_by_email_def db1_def alice_def)
  have ne: "u_refresh_token alice \<noteq> Some ''r:a@x.com''"
    by (simp add: alice_def)
  have upd: "update_token alice None db1 = db1\<lparr>users := [alice\<lparr>u_refresh_token := None\<rparr>]\<rparr>"
    by (simp add: update_token_def commit_user_def db1_def)
  show ?thesis
    using refresh_token_mismatch_revokes [OF dec dec' wf u ne] by (simp add: upd)
qed

text \<open>
  C10. When the presented token decodes to an email under which no user is stored, the
  refresh reads \<open>refresh_token\<close> of \<open>None\<close>: it ends in an \<open>AttributeError\<close>, not in an
  \<open>HTTPException\<close> of any status, and the database is unchanged.
\<close>

theorem refresh_token_missing_user_faults:
  assumes dec: "decode_refresh_token svc now token = Inr email"
      and nouser: "get_user_by_email email d = Inr None"
  shows "route_refresh_token svc now token d = (Inl AttributeError, d)
       \<and> (\<forall>code detail. fst (route_refresh_token svc now token d) \<noteq> Inl (HTTPException code detail))"
  using dec nouser by (simp add: route_refresh_token_def)

theorem refresh_token_missing_user_faults_witness:
  "route_refresh_token svc0 5 ''r:a@x.com'' db0 = (Inl AttributeError, db0)"
proof -
  have dec: "decode_refresh_token svc0 5 ''r:a@x.com'' = Inr ''a@x.com''"
    by (simp add: svc0_def)
  have nouser: "get_user_by_email ''a@x.com'' db0 = Inr None"
    by (simp add: get_user_by_email_def db0_def)
  show ?thesis
    using refresh_token_missing_user_faults [OF dec nouser] by simp
qed

text \<open>
  The 401 "Invalid refresh token" of the route is reached only with a stored user: once the
  token has decoded, that outcome implies the lookup found one.
\<close>

lemma refresh_token_invalid_needs_user:
  assumes "decode_refresh_token svc now token = Inr email"
      and "fst (route_refresh_token svc now token d) = Inl (HTTPException 401 ''Invalid refresh token'')"
  shows "\<exists>u. get_user_by_email email d = Inr (Some u) \<and> u_refresh_token u \<noteq> Some token"
  using assms
  by (auto simp: route_refresh_token_def get_user_by_email_def Let_def
      dest: scalar_one_or_none_Inl split: sum.splits option.splits if_splits)

section \<open>Login\<close>

text \<open>
  C5. The outcome of a login is decided by the lookup of the email, then the confirmed flag,
  then the password: an unknown email gives the 401 error "Invalid email"; a stored but
  unconfirmed user gives "Email not confirmed" whatever the password is; a confirmed user
  with a wrong password gives "Invalid password"; a confirmed user with the right password
  gets the token pair, and nobody else does. The three details are pairwise different.
\<close>

theorem login_outcomes:
  "(get_user_by_email username d = Inr None \<longrightarrow>
      login svc now username password d = (Inl (HTTPException 401 ''Invalid email''), d))
   \<and> (\<forall>u. get_user_by_email username d = Inr (Some u) \<and> \<not> u_confirmed u \<longrightarrow>
      login svc now username password d = (Inl (HTTPException 401 ''Email not confirmed''), d))
   \<and> (\<forall>u. get_user_by_email username d = Inr (Some u) \<and> u_confirmed u
          \<and> \<not> verify_password svc password (u_hash u) \<longrightarrow>
      login svc now username password d = (Inl (HTTPException 401 ''Invalid password''), d))
   \<and> (\<forall>u. get_user_by_email username d = Inr (Some u) \<and> u_confirmed u
          \<and> verify_password svc password (u_hash u) \<longrightarrow>
      login svc now username password d =
        (Inr \<lparr>access_token = create_access_token svc now (u_email u),
              refresh_token = create_refresh_token svc now (u_email u),
              token_type = ''bearer''\<rparr>,
         update_token u (Some (create_refresh_token svc now (u_email u))) d))
   \<and> (\<forall>t. fst (login svc now username password d) = Inr t \<longrightarrow>
        (\<exists>u. get_user_by_email username d = Inr (Some u) \<and> u_confirmed u
           \<and> verify_password svc password (u_hash u)))
   \<and> ''Invalid email'' \<noteq> ''Email not confirmed''
   \<and> ''Invalid email'' \<noteq> ''Invalid password''
   \<and> ''Email not confirmed'' \<noteq> ''Invalid password''"
proof -
  have only: "\<exists>u. get_user_by_email username d = Inr (Some u) \<and> u_confirmed u
           \<and> verify_password svc password (u_hash u)"
    if "fst (login svc now username password d) = Inr t" for t
    using that by (auto simp: login_def split: sum.splits option.splits if_splits)
  show ?thesis
    using only by (simp add: login_def Let_def)
qed

theorem login_outcomes_witness:
  "login svc0 5 ''zed@x.com'' ''pw'' db2 = (Inl (HTTPException 401 ''Invalid email''), db2)
   \<and> login svc0 5 ''b@x.com'' ''pw2'' db2 = (Inl (HTTPException 401 ''Email not confirmed''), db2)
   \<and> login svc0 5 ''b@x.com'' ''bad'' db2 = (Inl (HTTPException 401 ''Email not confirmed''), db2)
   \<and> login svc0 5 ''a@x.com'' ''bad'' db2 = (Inl (HTTPException 401 ''Invalid password''), db2)
   \<and> fst (login svc0 5 ''a@x.com'' ''pw'' db2) =
       Inr \<lparr>access_token = ''a:a@x.com'', refresh_token = ''r:a@x.com'', token_type = ''bearer''\<rparr>"
proof -
  have zed: "get_user_by_email ''zed@x.com'' db2 = Inr None"
    by (simp add: get_user_by_email_def db2_def alice_def bob_def)
  have b: "get_user_by_email ''b@x.com'' db2 = Inr (Some bob)"
    by (simp add: get_user_by_email_def db2_def alice_def bob_def)
  have a: "get_user_by_email ''a@x.com'' db2 = Inr (Some alice)"
    by (simp add: get_user_by_email_def db2_def alice_def bob_def)
  have bobs: "\<not> u_confirmed bob"
    by (simp add: bob_def)
  have alices: "u_confirmed alice" "u_email alice = ''a@x.com''"
    "\<not> verify_password svc0 ''bad'' (u_hash alice)" "verify_password svc0 ''pw'' (u_hash alice)"
    by (simp_all add: alice_def svc0_def)
  have tokens: "create_access_token svc0 5 ''a@x.com'' = ''a:a@x.com''"
    "create_refresh_token svc0 5 ''a@x.com'' = ''r:a@x.com''"
    by (simp_all add: svc0_def)
  note c1 = login_outcomes [THEN conjunct1, rule_format]
  note c2 = login_outcomes [THEN conjunct2, THEN conjunct1, rule_format]
  note c3 = login_outcomes [THEN conjunct2, THEN conjunct2, THEN conjunct1, rule_format]
  note c4 = login_outcomes [THEN conjunct2, THEN conjunct2, THEN conjunct2, THEN conjunct1,
      rule_format]
  have 1: "login svc0 5 ''zed@x.com'' ''pw'' db2 = (Inl (HTTPException 401 ''Invalid email''), db2)"
    by (rule c1) (rule zed)
  have 2: "login svc0 5 ''b@x.com'' ''pw2'' db2 =
      (Inl (HTTPException 401 ''Email not confirmed''), db2)"
    by (rule c2 [of _ _ bob]) (simp only: b bobs simp_thms)
  have 3: "login svc0 5 ''b@x.com'' ''bad'' db2 =
      (Inl (HTTPException 401 ''Email not confirmed''), db2)"
    by (rule c2 [of _ _ bob]) (simp only: b bobs simp_thms)
  have 4: "login svc0 5 ''a@x.com'' ''bad'' db2 =
      (Inl (HTTPException 401 ''Invalid password''), db2)"
    by (rule c3 [of _ _ alice]) (simp only: a alices simp_thms)
  have "login svc0 5 ''a@x.com'' ''pw'' db2 =
        (Inr \<lparr>access_token = create_access_token svc0 5 (u_email alice),
              refresh_token = create_refresh_token svc0 5 (u_email alice),
              token_type = ''bearer''\<rparr>,
         update_token alice (Some (create_refresh_token svc0 5 (u_email alice))) db2)"
    by (rule c4 [of _ _ alice]) (simp only: a alices simp_thms)
  then have 5: "fst (login svc0 5 ''a@x.com'' ''pw'' db2) =
       Inr \<lparr>access_token = ''a:a@x.com'', refresh_token = ''r:a@x.com'', token_type = ''bearer''\<rparr>"
    by (simp only: alices tokens fst_conv)
  from 1 2 3 4 5 show ?thesis
    by (intro conjI)
qed

section \<open>Signup\<close>

lemma filter_distinct_key_le1:
  "distinct (map f xs) \<Longrightarrow> length (filter (\<lambda>x. f x = a) xs) \<le> 1"
  by (induction xs) (auto simp: filter_empty_conv image_iff)

lemma get_user_by_email_wf_cases:
  assumes "users_wf d"
  shows "get_user_by_email email d = Inr None \<or> (\<exists>u. get_user_by_email email d = Inr (Some u))"
proof -
  from assms have "distinct (map u_email (users d))"
    by (simp add: users_wf_def)
  then have "length (filter (\<lambda>u. u_email u = email) (users d)) \<le> 1"
    by (rule filter_distinct_key_le1)
  then show ?thesis
    by (cases "filter (\<lambda>u. u_email u = email) (users d)" rule: scalar_one_or_none.cases)
      (auto simp: get_user_by_email_def)
qed

lemma get_user_by_email_NoneD:
  "get_user_by_email email d = Inr None \<Longrightarrow> u \<in> set (users d) \<Longrightarrow> u_email u \<noteq> email"
  by (auto simp: get_user_by_email_def scalar_one_or_none_None filter_empty_conv)

text \<open>A signup with an email that is not stored appends exactly the new user.\<close>

lemma signup_fresh:
  assumes "get_user_by_email (s_email body) d = Inr None"
  shows "signup svc gravatar base_url body d =
     (Inr (\<lparr>u_id = users_seq d, u_username = s_username body, u_email = s_email body,
            u_hash = get_password_hash svc (s_hash body), u_avatar = gravatar (s_email body),
            u_confirmed = False, u_refresh_token = None\<rparr>,
           Send_email (s_email body) (s_username body) base_url),
      d\<lparr>users := users d @
           [\<lparr>u_id = users_seq d, u_username = s_username body, u_email = s_email body,
             u_hash = get_password_hash svc (s_hash body), u_avatar = gravatar (s_email body),
             u_confirmed = False, u_refresh_token = None\<rparr>],
         users_seq := Suc (users_seq d)\<rparr>)"
  using assms by (simp add: signup_def create_user_def Let_def)

lemma signup_present:
  assumes "get_user_by_email (s_email body) d = Inr (Some u)"
  shows "signup svc gravatar base_url body d =
     (Inl (HTTPException 409 ''Account already exists''), d)"
  using assms by (simp add: signup_def)

lemma signup_stores_email:
  assumes wf: "users_wf d"
  shows "\<exists>u. get_user_by_email (s_email body) (snd (signup svc gravatar base_url body d)) =
           Inr (Some u)"
proof -
  consider (absent) "get_user_by_email (s_email body) d = Inr None"
    | (present) u where "get_user_by_email (s_email body) d = Inr (Some u)"
    using get_user_by_email_wf_cases [OF wf, of "s_email body"] by blast
  then show ?thesis
  proof cases
  case absent
  then have "filter (\<lambda>u. u_email u = s_email body) (users d) = []"
    by (simp add: get_user_by_email_def scalar_one_or_none_None)
  then show ?thesis
    by (simp add: signup_fresh [OF absent] get_user_by_email_def)
next
  case (present u)
  then show ?thesis
    by (simp add: signup_present [OF present])
  qed
qed

lemma signup_preserves_wf:
  assumes wf: "users_wf d"
  shows "users_wf (snd (signup svc gravatar base_url body d))"
proof -
  consider (absent) "get_user_by_email (s_email body) d = Inr None"
    | (present) u where "get_user_by_email (s_email body) d = Inr (Some u)"
    using get_user_by_email_wf_cases [OF wf, of "s_email body"] by blast
  then show ?thesis
  proof cases
  case absent
  have fresh: "s_email body \<notin> u_email ` set (users d)"
  proof
    assume "s_email body \<in> u_email ` set (users d)"
    then obtain x where x: "x \<in> set (users d)" and e: "s_email body = u_email x"
      by (rule imageE)
    from get_user_by_email_NoneD [OF absent x] e show False
      by simp
  qed
  have below: "u_id u < users_seq d" if "u \<in> set (users d)" for u
    using wf that by (simp add: users_wf_def list_all_iff)
  have newid: "users_seq d \<notin> u_id ` set (users d)"
  proof
    assume "users_seq d \<in> u_id ` set (users d)"
    then obtain x where x: "x \<in> set (users d)" and e: "users_seq d = u_id x"
      by (rule imageE)
    from below [OF x] e show False
      by simp
  qed
  show ?thesis
    using wf fresh newid below
    by (auto simp: signup_fresh [OF absent] users_wf_def list_all_iff less_Suc_eq)
next
  case (present u)
  then show ?thesis
    using wf by (simp add: signup_present [OF present])
  qed
qed

lemma signup_keeps_users:
  assumes wf: "users_wf d"
  shows "take (length (users d)) (users (snd (signup svc gravatar base_url body d))) = users d"
proof -
  consider (absent) "get_user_by_email (s_email body) d = Inr None"
    | (present) u where "get_user_by_email (s_email body) d = Inr (Some u)"
    using get_user_by_email_wf_cases [OF wf, of "s_email body"] by blast
  then show ?thesis
  proof cases
  case absent
  then show ?thesis
    by (simp add: signup_fresh [OF absent])
next
  case (present u)
  then show ?thesis
    by (simp add: signup_present [OF present])
  qed
qed

text \<open>
  C6. On a users table that satisfies its key constraints, two signups with the same email:
  the second ends in the 409 error "Account already exists" and leaves the database as the
  first left it; after both, exactly one stored user has that email, the users stored before
  the first call are still there unchanged, and the key constraints still hold.
\<close>

theorem signup_twice_conflict:
  assumes wf: "users_wf d" and same: "s_email body2 = s_email body1"
  shows "fst (signup svc2 gravatar2 base_url2 body2 (snd (signup svc1 gravatar1 base_url1 body1 d)))
           = Inl (HTTPException 409 ''Account already exists'')
       \<and> snd (signup svc2 gravatar2 base_url2 body2 (snd (signup svc1 gravatar1 base_url1 body1 d)))
           = snd (signup svc1 gravatar1 base_url1 body1 d)
       \<and> length (filter (\<lambda>u. u_email u = s_email body1)
            (users (snd (signup svc1 gravatar1 base_url1 body1 d)))) = 1
       \<and> take (length (users d)) (users (snd (signup svc1 gravatar1 base_url1 body1 d))) = users d
       \<and> users_wf (snd (signup svc1 gravatar1 base_url1 body1 d))"
proof -
  let ?d1 = "snd (signup svc1 gravatar1 base_url1 body1 d)"
  obtain u where u: "get_user_by_email (s_email body1) ?d1 = Inr (Some u)"
    using signup_stores_email [OF wf] by blast
  have second: "signup svc2 gravatar2 base_url2 body2 ?d1 =
      (Inl (HTTPException 409 ''Account already exists''), ?d1)"
    using u same by (simp add: signup_present)
  from u have one: "length (filter (\<lambda>u. u_email u = s_email body1) (users ?d1)) = 1"
    by (simp add: get_user_by_email_def scalar_one_or_none_Some)
  show ?thesis
    using second one signup_keeps_users [OF wf] signup_preserves_wf [OF wf] by simp
qed

theorem signup_twice_conflict_witness:
  "fst (signup svc0 no_gravatar ''http://h/''
          \<lparr>s_username = ''bob2'', s_email = ''b@x.com'', s_hash = ''other''\<rparr>
          (snd (signup svc0 no_gravatar ''http://h/''
             \<lparr>s_username = ''bob'', s_email = ''b@x.com'', s_hash = ''pw2''\<rparr> db1)))
     = Inl (HTTPException 409 ''Account already exists'')
   \<and> users (snd (signup svc0 no_gravatar ''http://h/''
             \<lparr>s_username = ''bob'', s_email = ''b@x.com'', s_hash = ''pw2''\<rparr> db1))
     = [alice, bob]"
proof -
  have wf: "users_wf db1"
    by (simp add: users_wf_def db1_def alice_def)
  have same: "s_email \<lparr>s_username = ''bob2'', s_email = ''b@x.com'', s_hash = ''other''\<rparr>
      = s_email \<lparr>s_username = ''bob'', s_email = ''b@x.com'', s_hash = ''pw2''\<rparr>"
    by simp
  have absent: "get_user_by_email
      (s_email \<lparr>s_username = ''bob'', s_email = ''b@x.com'', s_hash = ''pw2''\<rparr>) db1 = Inr None"
    by (simp add: get_user_by_email_def db1_def alice_def)
  have first: "users (snd (signup svc0 no_gravatar ''http://h/''
             \<lparr>s_username = ''bob'', s_email = ''b@x.com'', s_hash = ''pw2''\<rparr> db1)) = [alice, bob]"
    by (simp add: signup_fresh [OF absent]) (simp add: db1_def bob_def svc0_def no_gravatar_def)
  show ?thesis
    using signup_twice_conflict [OF wf same, of svc0 no_gravatar "''http://h/''" svc0
        no_gravatar "''http://h/''"] first
    by simp
qed

section \<open>Email confirmation\<close>

lemma confirmed_ids_commit_user:
  assumes ids: "distinct (map u_id (users d))"
      and mem: "u \<in> set (users d)"
      and id: "u_id u' = u_id u"
      and keep: "u_confirmed u \<Longrightarrow> u_confirmed u'"
  shows "confirmed_ids d \<subseteq> confirmed_ids (commit_user u' d)"
proof
  fix x
  assume "x \<in> confirmed_ids d"
  then obtain v where v: "v \<in> set (users d)" and cv: "u_confirmed v" and xv: "x = u_id v"
    by (auto simp: confirmed_ids_def)
  define w where "w = (if u_id v = u_id u' then u' else v)"
  have in_new: "w \<in> set (users (commit_user u' d))"
    using v by (simp add: w_def)
  have good: "u_confirmed w \<and> u_id w = x"
  proof (cases "u_id v = u_id u'")
    case True
    with id have "v = u"
      using distinct_map_eqD [OF ids v mem] by simp
    with True cv keep xv show ?thesis
      by (simp add: w_def)
  next
    case False
    with cv xv show ?thesis
      by (simp add: w_def)
  qed
  from in_new good have "w \<in> set (filter u_confirmed (users (commit_user u' d)))"
    by simp
  then have "u_id w \<in> u_id ` set (filter u_confirmed (users (commit_user u' d)))"
    by (rule imageI)
  with good show "x \<in> confirmed_ids (commit_user u' d)"
    by (simp add: confirmed_ids_def)
qed

lemma confirmed_ids_update_token:
  assumes "users_wf d" and "get_user_by_email email d = Inr (Some u)"
  shows "confirmed_ids d \<subseteq> confirmed_ids (update_token u token d)"
  unfolding update_token_def
  using assms
  by (intro confirmed_ids_commit_user) (simp_all add: users_wf_def get_user_by_email_SomeD)

lemma confirmed_ids_signup:
  "confirmed_ids d \<subseteq> confirmed_ids (snd (signup svc gravatar base_url body d))"
  by (auto simp: signup_def create_user_def confirmed_ids_def Let_def
      split: sum.splits option.splits)

lemma confirmed_ids_login:
  assumes "users_wf d"
  shows "confirmed_ids d \<subseteq> confirmed_ids (snd (login svc now username password d))"
proof (cases "get_user_by_email username d")
  case (Inl e)
  then show ?thesis by (simp add: login_def)
next
  case (Inr r)
  show ?thesis
  proof (cases r)
    case None
    with Inr show ?thesis by (simp add: login_def)
  next
    case (Some u)
    with Inr have u: "get_user_by_email username d = Inr (Some u)"
      by simp
    show ?thesis
      using confirmed_ids_update_token [OF assms u]
      by (simp add: login_def u Let_def)
  qed
qed

lemma confirmed_ids_refresh_token:
  assumes "users_wf d"
  shows "confirmed_ids d \<subseteq> confirmed_ids (snd (route_refresh_token svc now token d))"
proof (cases "decode_refresh_token svc now token")
  case (Inl e)
  then show ?thesis by (simp add: route_refresh_token_def)
next
  case (Inr email)
  note dec = this
  show ?thesis
  proof (cases "get_user_by_email email d")
    case (Inl e)
    with dec show ?thesis by (simp add: route_refresh_token_def)
  next
    case (Inr r)
    show ?thesis
    proof (cases r)
      case None
      with Inr dec show ?thesis by (simp add: route_refresh_token_def)
    next
      case (Some u)
      with Inr have u: "get_user_by_email email d = Inr (Some u)"
        by simp
      show ?thesis
        using confirmed_ids_update_token [OF assms u]
        by (simp add: route_refresh_token_def dec u Let_def)
    qed
  qed
qed

lemma confirmed_ids_update_avatar_url:
  assumes "users_wf d"
  shows "confirmed_ids d \<subseteq> confirmed_ids (snd (update_avatar_url email url d))"
proof (cases "get_user_by_email email d")
  case (Inl e)
  then show ?thesis by (simp add: update_avatar_url_def)
next
  case (Inr r)
  show ?thesis
  proof (cases r)
    case None
    with Inr show ?thesis by (simp add: update_avatar_url_def)
  next
    case (Some u)
    with Inr have u: "get_user_by_email email d = Inr (Some u)"
      by simp
    have "confirmed_ids d \<subseteq> confirmed_ids (commit_user (u\<lparr>u_avatar := url\<rparr>) d)"
      using assms get_user_by_email_SomeD(1) [OF u]
      by (intro confirmed_ids_commit_user) (simp_all add: users_wf_def)
    then show ?thesis
      by (simp add: update_avatar_url_def u Let_def)
  qed
qed

lemma route_confirmed_email_found:
  assumes tok: "get_email_from_token svc now token = Inr email"
      and u: "get_user_by_email email d = Inr (Some u)"
  shows "route_confirmed_email svc now token d =
     (if u_confirmed u then (Inr ''Your email is already confirmed'', d)
      else (Inr ''Email confirmed'', commit_user (u\<lparr>u_confirmed := True\<rparr>) d))"
  using tok u by (simp add: route_confirmed_email_def repository_confirmed_email_def)

text \<open>
  C8. Let the confirmation token carry the email of a stored user. If the user is already
  confirmed, the confirmation returns the message "Your email is already confirmed" and the
  database is unchanged; otherwise it returns "Email confirmed" and the stored flag is set.
  In both cases the user is confirmed afterwards, a second confirmation with the same token
  returns the already-confirmed message and changes nothing, and the two messages differ.
  No operation on users ever clears the flag: the users confirmed before a signup, a login,
  a refresh, a confirmation or an avatar update are confirmed after it.
\<close>

theorem confirmed_email_idempotent:
  assumes tok: "get_email_from_token svc now token = Inr email"
      and tok': "get_email_from_token svc now' token = Inr email"
      and wf: "users_wf d"
      and u: "get_user_by_email email d = Inr (Some u)"
  shows "(u_confirmed u \<longrightarrow>
            route_confirmed_email svc now token d = (Inr ''Your email is already confirmed'', d))
       \<and> (\<not> u_confirmed u \<longrightarrow>
            route_confirmed_email svc now token d =
              (Inr ''Email confirmed'', commit_user (u\<lparr>u_confirmed := True\<rparr>) d))
       \<and> get_user_by_email email (snd (route_confirmed_email svc now token d)) =
            Inr (Some (u\<lparr>u_confirmed := True\<rparr>))
       \<and> route_confirmed_email svc now' token (snd (route_confirmed_email svc now token d)) =
            (Inr ''Your email is already confirmed'', snd (route_confirmed_email svc now token d))
       \<and> ''Your email is already confirmed'' \<noteq> ''Email confirmed''
       \<and> confirmed_ids d \<subseteq> confirmed_ids (snd (route_confirmed_email svc now token d))
       \<and> (\<forall>svc1 gravatar base_url body.
            confirmed_ids d \<subseteq> confirmed_ids (snd (signup svc1 gravatar base_url body d)))
       \<and> (\<forall>svc1 t username password.
            confirmed_ids d \<subseteq> confirmed_ids (snd (login svc1 t username password d)))
       \<and> (\<forall>svc1 t tk.
            confirmed_ids d \<subseteq> confirmed_ids (snd (route_refresh_token svc1 t tk d)))
       \<and> (\<forall>email1 url.
            confirmed_ids d \<subseteq> confirmed_ids (snd (update_avatar_url email1 url d)))"
proof -
  let ?u' = "u\<lparr>u_confirmed := True\<rparr>"
  let ?d' = "snd (route_confirmed_email svc now token d)"
  from wf have ids: "distinct (map u_id (users d))"
    by (simp add: users_wf_def)
  note found = route_confirmed_email_found [OF tok u]
  have stored: "get_user_by_email email ?d' = Inr (Some ?u')"
  proof (cases "u_confirmed u")
    case True
    then have "?u' = u" by simp
    with True u show ?thesis by (simp add: found)
  next
    case False
    have "get_user_by_email email (commit_user ?u' d) = Inr (Some ?u')"
      by (rule get_user_by_email_commit_user [OF ids u]) simp_all
    with False show ?thesis by (simp add: found)
  qed
  have again: "route_confirmed_email svc now' token ?d' =
      (Inr ''Your email is already confirmed'', ?d')"
    by (simp add: route_confirmed_email_found [OF tok' stored])
  have mono: "confirmed_ids d \<subseteq> confirmed_ids ?d'"
  proof (cases "u_confirmed u")
    case True
    then show ?thesis by (simp add: found)
  next
    case False
    have "confirmed_ids d \<subseteq> confirmed_ids (commit_user ?u' d)"
      using ids get_user_by_email_SomeD(1) [OF u] by (rule confirmed_ids_commit_user) simp_all
    with False show ?thesis by (simp add: found)
  qed
  show ?thesis
    using stored again mono confirmed_ids_signup confirmed_ids_login [OF wf]
      confirmed_ids_refresh_token [OF wf] confirmed_ids_update_avatar_url [OF wf]
    by (simp add: found)
qed

theorem confirmed_email_idempotent_witness:
  "route_confirmed_email svc0 5 ''b@x.com'' db2 =
     (Inr ''Email confirmed'', db2\<lparr>users := [alice, bob\<lparr>u_confirmed := True\<rparr>]\<rparr>)
   \<and> route_confirmed_email svc0 6 ''b@x.com'' (db2\<lparr>users := [alice, bob\<lparr>u_confirmed := True\<rparr>]\<rparr>) =
     (Inr ''Your email is already confirmed'', db2\<lparr>users := [alice, bob\<lparr>u_confirmed := True\<rparr>]\<rparr>)
   \<and> route_confirmed_email svc0 5 ''a@x.com'' db2 = (Inr ''Your email is already confirmed'', db2)"
proof -
  have tok: "get_email_from_token svc0 5 ''b@x.com'' = Inr ''b@x.com''"
    and tok': "get_email_from_token svc0 6 ''b@x.com'' = Inr ''b@x.com''"
    and tok_a: "get_email_from_token svc0 5 ''a@x.com'' = Inr ''a@x.com''"
    by (simp_all add: svc0_def)
  have wf: "users_wf db2"
    by (simp add: users_wf_def db2_def alice_def bob_def)
  have b: "get_user_by_email ''b@x.com'' db2 = Inr (Some bob)"
    by (simp add: get_user_by_email_def db2_def alice_def bob_def)
  have a: "get_user_by_email ''a@x.com'' db2 = Inr (Some alice)"
    by (simp add: get_user_by_email_def db2_def alice_def bob_def)
  have flags: "\<not> u_confirmed bob" "u_confirmed alice"
    by (simp_all add: bob_def alice_def)
  have upd: "commit_user (bob\<lparr>u_confirmed := True\<rparr>) db2 =
      db2\<lparr>users := [alice, bob\<lparr>u_confirmed := True\<rparr>]\<rparr>"
    by (simp add: commit_user_def db2_def alice_def bob_def)
  note B = confirmed_email_idempotent [OF tok tok' wf b]
  note A = confirmed_email_idempotent [OF tok_a tok_a wf a]
  have 1: "route_confirmed_email svc0 5 ''b@x.com'' db2 =
     (Inr ''Email confirmed'', db2\<lparr>users := [alice, bob\<lparr>u_confirmed := True\<rparr>]\<rparr>)"
    using B [THEN conjunct2, THEN conjunct1] flags by (simp only: upd simp_thms)
  have 2: "route_confirmed_email svc0 6 ''b@x.com'' (db2\<lparr>users := [alice, bob\<lparr>u_confirmed := True\<rparr>]\<rparr>) =
     (Inr ''Your email is already confirmed'', db2\<lparr>users := [alice, bob\<lparr>u_confirmed := True\<rparr>]\<rparr>)"
    using B [THEN conjunct2, THEN conjunct2, THEN conjunct2, THEN conjunct1]
    by (simp only: 1 snd_conv)
  have 3: "route_confirmed_email svc0 5 ''a@x.com'' db2 =
      (Inr ''Your email is already confirmed'', db2)"
    using A [THEN conjunct1] flags by (simp only: simp_thms)
  from 1 2 3 show ?thesis
    by (intro conjI)
qed

section \<open>Contacts: lookups scoped by owner\<close>

lemma read_contact_SomeD:
  assumes "read_contact contact_id d user_id = Inr (Some c)"
  shows "c \<in> set (contacts d)" and "c_id c = contact_id" and "c_user_id c = user_id"
proof -
  from assms have
    "filter (\<lambda>c. c_id c = contact_id \<and> c_user_id c = user_id) (contacts d) = [c]"
    by (simp add: read_contact_def scalar_one_or_none_Some)
  then have "c \<in> set (filter (\<lambda>c. c_id c = contact_id \<and> c_user_id c = user_id) (contacts d))"
    by simp
  then show "c \<in> set (contacts d)" and "c_id c = contact_id" and "c_user_id c = user_id"
    by simp_all
qed

lemma read_contact_missing:
  assumes "filter (\<lambda>c. c_id c = contact_id \<and> c_user_id c = user_id) (contacts d) = []"
  shows "read_contact contact_id d user_id = Inr None"
  using assms by (simp add: read_contact_def)

text \<open>A contact of another owner is not found under its id.\<close>

lemma read_contact_other_owner:
  assumes wf: "contacts_wf d" and mem: "c \<in> set (contacts d)" and other: "c_user_id c \<noteq> user_id"
  shows "read_contact (c_id c) d user_id = Inr None"
proof (rule read_contact_missing)
  from wf have ids: "distinct (map c_id (contacts d))"
    by (simp add: contacts_wf_def)
  have "\<not> (c_id r = c_id c \<and> c_user_id r = user_id)" if r: "r \<in> set (contacts d)" for r
  proof
    assume a: "c_id r = c_id c \<and> c_user_id r = user_id"
    then have "r = c"
      using distinct_map_eqD [OF ids r mem] by simp
    with a other show False
      by simp
  qed
  then show "filter (\<lambda>r. c_id r = c_id c \<and> c_user_id r = user_id) (contacts d) = []"
    by (simp add: filter_empty_conv)
qed

text \<open>Whatever id the caller passes, a contact of another owner stays in the table as it is.\<close>

lemma update_contact_keeps_other:
  assumes wf: "contacts_wf d" and mem: "c \<in> set (contacts d)" and other: "c_user_id c \<noteq> user_id"
  shows "c \<in> set (contacts (snd (update_contact body contact_id d user_id)))"
proof (cases "read_contact contact_id d user_id")
  case (Inl e)
  with mem show ?thesis by (simp add: update_contact_def)
next
  case (Inr r)
  show ?thesis
  proof (cases r)
    case None
    with Inr mem show ?thesis by (simp add: update_contact_def)
  next
    case (Some c0)
    with Inr have c0: "read_contact contact_id d user_id = Inr (Some c0)"
      by simp
    from wf have ids: "distinct (map c_id (contacts d))"
      by (simp add: contacts_wf_def)
    have "c_id c \<noteq> c_id c0"
    proof
      assume "c_id c = c_id c0"
      then have "c = c0"
        using distinct_map_eqD [OF ids mem read_contact_SomeD(1) [OF c0]] by simp
      with other read_contact_SomeD(3) [OF c0] show False
        by simp
    qed
    then have "(\<lambda>r. if c_id r = c_id c0 then
        c0\<lparr>c_name := b_name body, c_email := b_email body, c_rest := b_rest body\<rparr> else r) c = c"
      by simp
    with mem have "c \<in> (\<lambda>r. if c_id r = c_id c0 then
        c0\<lparr>c_name := b_name body, c_email := b_email body, c_rest := b_rest body\<rparr> else r)
        ` set (contacts d)"
      by (rule_tac x = c in image_eqI) simp_all
    then show ?thesis
      by (simp add: update_contact_def c0 commit_contact_def Let_def)
  qed
qed

lemma delete_contact_keeps_other:
  assumes wf: "contacts_wf d" and mem: "c \<in> set (contacts d)" and other: "c_user_id c \<noteq> user_id"
  shows "c \<in> set (contacts (snd (delete_contact contact_id d user_id)))"
proof (cases "read_contact contact_id d user_id")
  case (Inl e)
  with mem show ?thesis by (simp add: delete_contact_def)
next
  case (Inr r)
  show ?thesis
  proof (cases r)
    case None
    with Inr mem show ?thesis by (simp add: delete_contact_def)
  next
    case (Some c0)
    with Inr have c0: "read_contact contact_id d user_id = Inr (Some c0)"
      by simp
    from wf have ids: "distinct (map c_id (contacts d))"
      by (simp add: contacts_wf_def)
    have "c_id c \<noteq> c_id c0"
    proof
      assume "c_id c = c_id c0"
      then have "c = c0"
        using distinct_map_eqD [OF ids mem read_contact_SomeD(1) [OF c0]] by simp
      with other read_contact_SomeD(3) [OF c0] show False
        by simp
    qed
    with mem show ?thesis
      by (simp add: delete_contact_def c0)
  qed
qed

text \<open>
  C4. Let a contact be stored whose owner is not the caller, in a contacts table with unique
  ids. Called with that contact's id and the caller's user id, \<open>read_contact\<close>,
  \<open>update_contact\<close> and \<open>delete_contact\<close> return \<open>None\<close> and leave the database as it is;
  called with any id at all, \<open>read_contact\<close> does not return that contact, and
  \<open>update_contact\<close> and \<open>delete_contact\<close> leave it stored unchanged.
\<close>

theorem owner_scoping:
  assumes wf: "contacts_wf d" and mem: "c \<in> set (contacts d)" and other: "c_user_id c \<noteq> user_id"
  shows "read_contact (c_id c) d user_id = Inr None
       \<and> update_contact body (c_id c) d user_id = (Inr None, d)
       \<and> delete_contact (c_id c) d user_id = (Inr None, d)
       \<and> (\<forall>contact_id. read_contact contact_id d user_id \<noteq> Inr (Some c))
       \<and> (\<forall>contact_id. c \<in> set (contacts (snd (update_contact body contact_id d user_id))))
       \<and> (\<forall>contact_id. c \<in> set (contacts (snd (delete_contact contact_id d user_id))))"
proof -
  note none = read_contact_other_owner [OF wf mem other]
  have no_read: "read_contact contact_id d user_id \<noteq> Inr (Some c)" for contact_id
    using read_contact_SomeD(3) [of contact_id d user_id c] other by blast
  show ?thesis
    using none no_read update_contact_keeps_other [OF wf mem other]
      delete_contact_keeps_other [OF wf mem other]
    by (simp add: update_contact_def delete_contact_def)
qed

theorem owner_scoping_witness:
  "read_contact 1 db3 2 = Inr None
   \<and> update_contact new_body 1 db3 2 = (Inr None, db3)
   \<and> delete_contact 1 db3 2 = (Inr None, db3)"
proof -
  have wf: "contacts_wf db3"
    by (simp add: contacts_wf_def db3_def carol_contact_def)
  have mem: "carol_contact \<in> set (contacts db3)"
    by (simp add: db3_def)
  have other: "c_user_id carol_contact \<noteq> 2"
    by (simp add: carol_contact_def)
  have cid: "c_id carol_contact = 1"
    by (simp add: carol_contact_def)
  show ?thesis
    using owner_scoping [OF wf mem other, of new_body] by (simp add: cid)
qed

section \<open>Contacts: add, missing contacts, update\<close>

text \<open>
  C9. In a contacts table whose ids are unique and below the sequence, \<open>add_contact\<close>
  followed by \<open>read_contact\<close> on the returned id with the same owner returns the contact
  that \<open>add_contact\<close> returned. Its six fields are the ones of the body, its owner is the
  caller, and its id is the next value of the sequence, which no stored contact has; the
  table keeps its invariant.
\<close>

theorem add_then_read_roundtrip:
  assumes wf: "contacts_wf d"
  shows "read_contact (c_id (fst (add_contact body d user_id)))
           (snd (add_contact body d user_id)) user_id = Inr (Some (fst (add_contact body d user_id)))
       \<and> c_name (fst (add_contact body d user_id)) = b_name body
       \<and> c_last_name (fst (add_contact body d user_id)) = b_last_name body
       \<and> c_email (fst (add_contact body d user_id)) = b_email body
       \<and> c_phone_number (fst (add_contact body d user_id)) = b_phone_number body
       \<and> c_birth_date (fst (add_contact body d user_id)) = b_birth_date body
       \<and> c_rest (fst (add_contact body d user_id)) = b_rest body
       \<and> c_user_id (fst (add_contact body d user_id)) = user_id
       \<and> c_id (fst (add_contact body d user_id)) = contacts_seq d
       \<and> contacts_seq d \<notin> c_id ` set (contacts d)
       \<and> contacts_wf (snd (add_contact body d user_id))"
proof -
  have below: "c_id r < contacts_seq d" if "r \<in> set (contacts d)" for r
    using wf that by (simp add: contacts_wf_def list_all_iff)
  have fresh: "contacts_seq d \<notin> c_id ` set (contacts d)"
  proof
    assume "contacts_seq d \<in> c_id ` set (contacts d)"
    then obtain r where r: "r \<in> set (contacts d)" and e: "contacts_seq d = c_id r"
      by (rule imageE)
    from below [OF r] e show False
      by simp
  qed
  have "\<not> (c_id r = contacts_seq d \<and> c_user_id r = user_id)" if "r \<in> set (contacts d)" for r
    using below [OF that] by simp
  then have none: "filter (\<lambda>r. c_id r = contacts_seq d \<and> c_user_id r = user_id) (contacts d) = []"
    by (simp add: filter_empty_conv)
  have read: "read_contact (c_id (fst (add_contact body d user_id)))
           (snd (add_contact body d user_id)) user_id = Inr (Some (fst (add_contact body d user_id)))"
    using none by (simp add: add_contact_def read_contact_def Let_def)
  have inv: "contacts_wf (snd (add_contact body d user_id))"
    using wf fresh below
    by (auto simp: add_contact_def contacts_wf_def list_all_iff Let_def less_Suc_eq)
  show ?thesis
    using read fresh inv by (simp add: add_contact_def Let_def)
qed

theorem add_then_read_roundtrip_witness:
  "read_contact 2 (snd (add_contact new_body db3 2)) 2 =
     Inr (Some \<lparr>c_id = 2, c_name = ''Caroline'', c_last_name = ''New'', c_email = ''c2@x.com'',
                c_phone_number = 222, c_birth_date = Date 1999 9 9, c_rest = ''changed'',
                c_user_id = 2\<rparr>)"
proof -
  have wf: "contacts_wf db3"
    by (simp add: contacts_wf_def db3_def carol_contact_def)
  have added: "fst (add_contact new_body db3 2) =
      \<lparr>c_id = 2, c_name = ''Caroline'', c_last_name = ''New'', c_email = ''c2@x.com'',
       c_phone_number = 222, c_birth_date = Date 1999 9 9, c_rest = ''changed'', c_user_id = 2\<rparr>"
    by (simp add: add_contact_def new_body_def db3_def Let_def)
  show ?thesis
    using add_then_read_roundtrip [OF wf, of new_body 2, THEN conjunct1]
    by (simp add: added)
qed

text \<open>
  C7, as stated, fails: for a contact id that no contact of the caller has, the delete route
  completes with its declared status 204; no \<open>HTTPException\<close> is raised.
\<close>

theorem route_delete_contact_missing_counterexample:
  "read_contact 7 db3 (u_id alice) = Inr None
   \<and> delete_contact 7 db3 (u_id alice) = (Inr None, db3)
   \<and> route_delete_contact 7 db3 alice = (Inr (Response 204 ()), db3)"
  by (simp add: route_delete_contact_def delete_contact_def read_contact_def db3_def
      carol_contact_def alice_def)

text \<open>
  C7, amended. For a contact id that no contact of the caller has, the store functions
  return \<open>None\<close> without raising and without changing the database. The delete route does
  not turn that \<open>None\<close> into a not-found response: it drops the store's result and completes
  with its declared status 204.
\<close>

theorem missing_contact_null_result:
  assumes "filter (\<lambda>c. c_id c = contact_id \<and> c_user_id c = u_id current_user) (contacts d) = []"
  shows "read_contact contact_id d (u_id current_user) = Inr None
       \<and> update_contact body contact_id d (u_id current_user) = (Inr None, d)
       \<and> delete_contact contact_id d (u_id current_user) = (Inr None, d)
       \<and> route_delete_contact contact_id d current_user = (Inr (Response 204 ()), d)"
proof -
  note none = read_contact_missing [OF assms]
  show ?thesis
    by (simp add: none update_contact_def delete_contact_def route_delete_contact_def)
qed

theorem missing_contact_null_result_witness:
  "read_contact 1 db3 2 = Inr None
   \<and> update_contact new_body 1 db3 2 = (Inr None, db3)
   \<and> delete_contact 1 db3 2 = (Inr None, db3)
   \<and> route_delete_contact 1 db3 bob = (Inr (Response 204 ()), db3)"
proof -
  have missing:
    "filter (\<lambda>c. c_id c = 1 \<and> c_user_id c = u_id bob) (contacts db3) = []"
    by (simp add: db3_def carol_contact_def bob_def)
  have bob_id: "u_id bob = 2"
    by (simp add: bob_def)
  show ?thesis
    using missing_contact_null_result [OF missing, of new_body] by (simp add: bob_id)
qed

text \<open>
  The other two routes on a missing contact: the GET route's \<open>None\<close> does not fit its
  response model, and the PUT route, which declares none, returns the \<open>None\<close>.
\<close>

lemma route_read_contact_missing:
  assumes "read_contact contact_id d (u_id current_user) = Inr None"
  shows "route_read_contact contact_id d current_user = Inl ResponseValidationError"
  using assms by (simp add: route_read_contact_def)

lemma route_update_contact_missing:
  assumes "read_contact contact_id d (u_id current_user) = Inr None"
  shows "route_update_contact body contact_id d current_user = (Inr (Response 200 None), d)"
  using assms by (simp add: route_update_contact_def update_contact_def)

text \<open>
  What \<open>update_contact\<close> writes for a contact it finds: the row keeps its id, owner,
  \<open>last_name\<close>, \<open>phone_number\<close> and \<open>birth_date\<close>; only \<open>name\<close>, \<open>email\<close> and \<open>rest\<close> come
  from the body.
\<close>

lemma update_contact_found:
  assumes "read_contact contact_id d user_id = Inr (Some c)"
  shows "update_contact body contact_id d user_id =
     (Inr (Some \<lparr>row = c\<lparr>c_name := b_name body, c_email := b_email body, c_rest := b_rest body\<rparr>,
                  lastName = Some (b_last_name body), phoneNumber = Some (b_phone_number body),
                  birthDate = Some (b_birth_date body)\<rparr>),
      commit_contact (c\<lparr>c_name := b_name body, c_email := b_email body, c_rest := b_rest body\<rparr>) d)"
  using assms by (simp add: update_contact_def Let_def)

text \<open>
  C3, evaluated: updating Carol's contact (last name "Old", phone number 111, born
  2001-03-03) with a body that has last name "New", phone number 222 and birth date
  1999-09-09 stores the new name, email and notes, and leaves the stored last name, phone
  number and birth date as they were; reading the contact back shows the old values.
\<close>

theorem update_contact_skips_columns:
  "snd (update_contact new_body 1 db3 1) =
     db3\<lparr>contacts := [carol_contact\<lparr>c_name := ''Caroline'', c_email := ''c2@x.com'',
                                     c_rest := ''changed''\<rparr>]\<rparr>
   \<and> read_contact 1 (snd (update_contact new_body 1 db3 1)) 1 =
       Inr (Some \<lparr>c_id = 1, c_name = ''Caroline'', c_last_name = ''Old'', c_email = ''c2@x.com'',
                  c_phone_number = 111, c_birth_date = Date 2001 3 3, c_rest = ''changed'',
                  c_user_id = 1\<rparr>)
   \<and> b_last_name new_body = ''New''
   \<and> b_phone_number new_body = 222
   \<and> b_birth_date new_body = Date 1999 9 9"
proof -
  have found: "read_contact 1 db3 1 = Inr (Some carol_contact)"
    by (simp add: read_contact_def db3_def carol_contact_def)
  have stored: "snd (update_contact new_body 1 db3 1) =
     db3\<lparr>contacts := [carol_contact\<lparr>c_name := ''Caroline'', c_email := ''c2@x.com'',
                                     c_rest := ''changed''\<rparr>]\<rparr>"
    by (simp only: update_contact_found [OF found] snd_conv)
      (simp add: commit_contact_def db3_def new_body_def)
  have reread: "read_contact 1 (db3\<lparr>contacts := [carol_contact\<lparr>c_name := ''Caroline'',
        c_email := ''c2@x.com'', c_rest := ''changed''\<rparr>]\<rparr>) 1 =
       Inr (Some \<lparr>c_id = 1, c_name = ''Caroline'', c_last_name = ''Old'', c_email = ''c2@x.com'',
                  c_phone_number = 111, c_birth_date = Date 2001 3 3, c_rest = ''changed'',
                  c_user_id = 1\<rparr>)"
    by (simp add: read_contact_def carol_contact_def)
  have reread': "read_contact 1 (snd (update_contact new_body 1 db3 1)) 1 =
       Inr (Some \<lparr>c_id = 1, c_name = ''Caroline'', c_last_name = ''Old'', c_email = ''c2@x.com'',
                  c_phone_number = 111, c_birth_date = Date 2001 3 3, c_rest = ''changed'',
                  c_user_id = 1\<rparr>)"
    by (simp only: stored reread)
  have body: "b_last_name new_body = ''New''" "b_phone_number new_body = 222"
    "b_birth_date new_body = Date 1999 9 9"
    by (simp_all add: new_body_def)
  from stored reread' body show ?thesis
    by (intro conjI)
qed

section \<open>The upcoming-birthday filter\<close>

text \<open>With a look-ahead of 0 days both sides of the comparison are the same age: nobody qualifies.\<close>

lemma has_birthday_next_days_zero: "\<not> has_birthday_next_days today birth 0"
  by (simp add: has_birthday_next_days_def)

text \<open>
  For a date that is not in the future, the year of its age is the difference of the years,
  less one when today's month and day come before the date's: the age grows at the
  anniversary.
\<close>

lemma age_years_past:
  assumes past: "\<not> date_less today ts"
      and mt: "1 \<le> month today" "month today \<le> 12"
      and mb: "1 \<le> month ts" "month ts \<le> 12"
  shows "date_part_year (age today ts) =
     year today - year ts
       - (if month today < month ts \<or> (month today = month ts \<and> day today < day ts)
          then 1 else 0)"
proof (cases today)
  case T: (Date yt mt dt)
  show ?thesis
  proof (cases ts)
    case B: (Date yb mb db)
    from past T B have ord: "yb < yt \<or> (yb = yt \<and> (mb < mt \<or> (mb = mt \<and> db \<le> dt)))"
      by auto
    show ?thesis
      using ord assms(2-) unfolding T B
      by (auto simp: age_def date_part_year_def Let_def)
  qed
qed

lemma minus_days_same_month:
  "int n < d \<Longrightarrow> minus_days (Date y m d) n = Date y m (d - int n)"
proof (induction n arbitrary: d)
  case 0
  then show ?case by simp
next
  case (Suc n)
  then have "int n < d - 1" by simp
  from Suc.IH [OF this] Suc.prems show ?case
    by (simp add: algebra_simps)
qed

text \<open>
  Where the seven days do not leave the month of the birthday (it is on the 8th or later),
  the filter is the calendar's window: a contact born in the past is included exactly on
  the seven days before the birthday, in the birthday's month.
\<close>

lemma has_birthday_next_days_same_month:
  assumes late: "7 < db"
      and mb: "1 \<le> mb" "mb \<le> 12"
      and mt: "1 \<le> month today" "month today \<le> 12"
      and past: "\<not> date_less today (Date yb mb db)"
  shows "has_birthday_next_days today (Date yb mb db) 7 \<longleftrightarrow>
     month today = mb \<and> db - 7 \<le> day today \<and> day today < db"
proof -
  have shifted: "date_minus_interval (Date yb mb db) 7 = Date yb mb (db - 7)"
    using late minus_days_same_month [of 7 db yb mb] by (simp add: date_minus_interval_def)
  have past7: "\<not> date_less today (Date yb mb (db - 7))"
    using past by (cases today) auto
  have a0: "age_years_at today (Date yb mb db) 0 =
      year today - yb
        - (if month today < mb \<or> (month today = mb \<and> day today < db) then 1 else 0)"
    using age_years_past [OF past] mt mb by (simp add: age_years_at_def)
  have a7: "age_years_at today (Date yb mb db) 7 =
      year today - yb
        - (if month today < mb \<or> (month today = mb \<and> day today < db - 7) then 1 else 0)"
    using age_years_past [OF past7] mt mb by (simp add: age_years_at_def shifted)
  show ?thesis
    unfolding has_birthday_next_days_def a0 a7 by auto
qed

text \<open>
  The filter on ordinary dates: a birthday seven days ahead is included, a birthday today or
  ten days ago is not, and a birthday on 2 January is included on 28 December.
\<close>

lemma has_birthday_next_days_examples:
  "has_birthday_next_days (Date 2023 6 8) (Date 1990 6 15) 7"
  "\<not> has_birthday_next_days (Date 2023 6 15) (Date 1990 6 15) 7"
  "\<not> has_birthday_next_days (Date 2023 6 25) (Date 1990 6 15) 7"
  "has_birthday_next_days (Date 2023 12 28) (Date 1990 1 2) 7"
  by code_simp+

text \<open>
  Around the end of February the filter and the calendar disagree in the other direction as
  well: for a contact born on 2000-03-01 and today 2001-02-22 the birthday is seven days
  ahead, as on the ordinary dates above, and the contact is not included.
\<close>

lemma has_birthday_next_days_misses_seventh_day:
  "\<not> has_birthday_next_days (Date 2001 2 22) (Date 2000 3 1) 7"
  "plus_days (Date 2001 2 22) 7 = Date 2001 3 1"
  by code_simp+

text \<open>
  C1, evaluated: for a contact born on 2001-03-03 and today 2028-02-24, the birth date moved
  back by seven days is 2001-02-24, whose age today is 27 years, while the age of the birth
  date is 26 years 11 months 21 days: the filter includes the contact. The next birthday,
  2028-03-03, is eight days ahead (February 2028 has 29 days), so no day from today to
  today + 7 is the birthday.
\<close>

theorem has_birthday_next_days_eighth_day:
  "has_birthday_next_days (Date 2028 2 24) (Date 2001 3 3) 7
   \<and> age (Date 2028 2 24) (date_minus_interval (Date 2001 3 3) 7) = Interval 324 0
   \<and> age (Date 2028 2 24) (Date 2001 3 3) = Interval 323 21
   \<and> \<not> birthday_within (Date 2028 2 24) (Date 2001 3 3) 7
   \<and> plus_days (Date 2028 2 24) 8 = Date 2028 3 3
   \<and> read_all_contacts (Date 2028 2 24) 10 0 None None None True db3 1 = [carol_contact]"
proof -
  have incl: "has_birthday_next_days (Date 2028 2 24) (Date 2001 3 3) 7"
    by code_simp
  have a7: "age (Date 2028 2 24) (date_minus_interval (Date 2001 3 3) 7) = Interval 324 0"
    by code_simp
  have a0: "age (Date 2028 2 24) (Date 2001 3 3) = Interval 323 21"
    by code_simp
  have cal: "\<not> birthday_within (Date 2028 2 24) (Date 2001 3 3) 7"
    by code_simp
  have eighth: "plus_days (Date 2028 2 24) 8 = Date 2028 3 3"
    by code_simp
  have bd: "c_birth_date carol_contact = Date 2001 3 3" and owner: "c_user_id carol_contact = 1"
    by (simp_all add: carol_contact_def)
  have query: "read_all_contacts (Date 2028 2 24) 10 0 None None None True db3 1 = [carol_contact]"
    by (simp add: read_all_contacts_def db3_def bd owner incl)
  from incl a7 a0 cal eighth query show ?thesis
    by (intro conjI)
qed

end
